theory Spec2Isabelle
  imports Complex_Main "HOL-Library.Word" "HOL-Library.Sublist"
begin

section \<open>Values of the JavaScript runtime\<close>

text \<open>
  A JavaScript string is a sequence of 16-bit code units. Literals of the source that
  are plain ASCII are written with \<open>utf16\<close>; the few characters of the seed data outside
  ASCII are given by their code unit.
\<close>

type_synonym jsstring = "16 word list"

definition utf16 :: "string \<Rightarrow> jsstring" where
  "utf16 s = map of_char s"

text \<open>
  \<open>ToBoolean\<close> of a string and of a number: the empty string and zero are falsy. The
  numbers that reach the resolvers come through the GraphQL scalars \<open>Int\<close> and \<open>Float\<close>,
  which admit finite values only, so \<open>NaN\<close> does not occur; no arithmetic is done on
  them, and they are modelled by \<open>int\<close> and \<open>rat\<close>.
\<close>

definition nonempty :: "jsstring \<Rightarrow> bool" where
  "nonempty s = (s \<noteq> [])"

definition nonzero :: "'a::zero \<Rightarrow> bool" where
  "nonzero n = (n \<noteq> 0)"

text \<open>
  A nullable value (\<open>null\<close>, \<open>undefined\<close> or an omitted property) is \<open>None\<close>; it is falsy.
\<close>

definition truthy :: "('a \<Rightarrow> bool) \<Rightarrow> 'a option \<Rightarrow> bool" where
  "truthy toBoolean v = (case v of None \<Rightarrow> False | Some x \<Rightarrow> toBoolean x)"

text \<open>
  The operator \<open>a || b\<close> yields \<open>a\<close> when \<open>a\<close> is truthy and \<open>b\<close> otherwise. \<open>js_or\<close> is the
  case where \<open>b\<close> is known to be a value, \<open>js_or_null\<close> the case where \<open>b\<close> may be \<open>null\<close>.
\<close>

definition js_or :: "('a \<Rightarrow> bool) \<Rightarrow> 'a option \<Rightarrow> 'a \<Rightarrow> 'a" where
  "js_or toBoolean a b = (case a of None \<Rightarrow> b | Some x \<Rightarrow> if toBoolean x then x else b)"

definition js_or_null :: "('a \<Rightarrow> bool) \<Rightarrow> 'a option \<Rightarrow> 'a option \<Rightarrow> 'a option" where
  "js_or_null toBoolean a b =
     (case a of None \<Rightarrow> b | Some x \<Rightarrow> if toBoolean x then Some x else b)"

text \<open>
  \<open>String.prototype.toLowerCase\<close> is the Unicode lower-casing of the runtime. It is a
  function from strings to strings (it need not keep the length), and the program uses
  nothing of it but its result, so it is an argument \<open>toLowerCase\<close> of the model.

  On a string of ASCII code units the runtime maps A to Z onto a to z and leaves the
  other units as they are. \<open>lower_ascii\<close> is that map; it is the instance of the
  argument in the examples, whose strings are all ASCII.
\<close>

definition lower_ascii :: "jsstring \<Rightarrow> jsstring" where
  "lower_ascii s = map (\<lambda>c. if 0x41 \<le> c \<and> c \<le> 0x5A then c + 0x20 else c) s"

text \<open>\<open>String.prototype.includes\<close>: the needle occurs at some position of the string.\<close>

fun includes_str :: "'a list \<Rightarrow> 'a list \<Rightarrow> bool" where
  "includes_str [] needle = (needle = [])"
| "includes_str (x # xs) needle = (prefix needle (x # xs) \<or> includes_str xs needle)"

text \<open>
  \<open>Array.prototype.findIndex\<close> gives the first position whose element satisfies the
  predicate; the source's \<open>-1\<close> is \<open>None\<close>. \<open>Array.prototype.find\<close> is \<open>List.find\<close>.
\<close>

fun findIndex :: "('a \<Rightarrow> bool) \<Rightarrow> 'a list \<Rightarrow> nat option" where
  "findIndex P [] = None"
| "findIndex P (x # xs) = (if P x then Some 0 else map_option Suc (findIndex P xs))"

text \<open>
  \<open>Array.prototype.splice(start, n)\<close> removes \<open>n\<close> elements from \<open>start\<close> on and returns
  them; the second component is the array afterwards.
\<close>

definition splice :: "nat \<Rightarrow> nat \<Rightarrow> 'a list \<Rightarrow> 'a list \<times> 'a list" where
  "splice start n xs = (take n (drop start xs), take start xs @ drop (start + n) xs)"

text \<open>Reading index 0 of an array: \<open>undefined\<close> when the array is empty.\<close>

definition first_elem :: "'a list \<Rightarrow> 'a option" where
  "first_elem xs = (case xs of [] \<Rightarrow> None | x # _ \<Rightarrow> Some x)"

section \<open>The schema\<close>

text \<open>
  The GraphQL types \<open>Book\<close>, \<open>BookInput\<close> and \<open>UpdateBookInput\<close> of \<open>typeDefs\<close>. The field
  \<open>id\<close> is called \<open>bid\<close>, and the fields of the inputs carry a prefix, since field names
  are global. An input field declared without \<open>!\<close> may be omitted or \<open>null\<close>.
  Every Book that the program stores has a string for \<open>description\<close> and \<open>author\<close> and a
  number for \<open>year\<close>; only \<open>rating\<close> can be \<open>null\<close> in the store.
\<close>

record Book =
  bid :: jsstring
  title :: jsstring
  description :: jsstring
  rating :: "rat option"
  author :: jsstring
  year :: int

record BookInput =
  in_title :: jsstring
  in_description :: "jsstring option"
  in_rating :: "rat option"
  in_author :: jsstring
  in_year :: int

record UpdateBookInput =
  up_id :: jsstring
  up_title :: "jsstring option"
  up_description :: "jsstring option"
  up_rating :: "rat option"
  up_author :: "jsstring option"
  up_year :: "int option"

text \<open>
  The argument \<open>input\<close> of \<open>addBook\<close> as a client sends it, before the executable schema
  has checked it against \<open>BookInput\<close>: any field may be missing.
\<close>

record BookInput_request =
  req_title :: "jsstring option"
  req_description :: "jsstring option"
  req_rating :: "rat option"
  req_author :: "jsstring option"
  req_year :: "int option"

datatype error =
  ValidationError
  | NullForNonNullable

text \<open>
  Coercion of the argument against \<open>input BookInput\<close>: \<open>title\<close>, \<open>author\<close> and \<open>year\<close> are
  declared with \<open>!\<close> and have to be there; a request that lacks one of them is refused
  before the resolver is called.
\<close>

definition coerce_BookInput :: "BookInput_request \<Rightarrow> error + BookInput" where
  "coerce_BookInput r =
     (case req_title r of
        None \<Rightarrow> Inl ValidationError
      | Some t \<Rightarrow>
          (case req_author r of
             None \<Rightarrow> Inl ValidationError
           | Some a \<Rightarrow>
               (case req_year r of
                  None \<Rightarrow> Inl ValidationError
                | Some y \<Rightarrow>
                    Inr \<lparr>in_title = t, in_description = req_description r,
                         in_rating = req_rating r, in_author = a, in_year = y\<rparr>)))"

section \<open>The store and the event channel\<close>

text \<open>The array \<open>books\<close> as the module creates it.\<close>

definition books :: "Book list" where
  "books =
   [\<lparr>bid = utf16 ''n12clfp3K'',
     title = utf16 ''The Guardians'',
     description =
       utf16 ''In the small Florida town of Seabrook, a young lawyer named Keith Russo was '' @
       utf16 ''shot dead at his desk as he worked late one night. The killer left no clues. '' @
       utf16 ''There were no witnesses, no one with a motive. But the police soon came to '' @
       utf16 ''suspect Quincy Miller, a young black man who was once a client of Russo'' @
       [0x2019] @
       utf16 ''s...'',
     rating = Some 4.5,
     author = utf16 ''John Grisham'',
     year = 1970\<rparr>,
    \<lparr>bid = utf16 ''TaFvKQmgQ'',
     title = utf16 ''The Girl on the Train'',
     description =
       utf16 ''Rachel catches the same commuter train every morning. She knows it will wait at '' @
       utf16 ''the same signal each time, overlooking a row of back gardens. She'' @
       [0x2019] @
       utf16 ''s even started to feel like she knows the people who live in one of the houses. '' @
       [0x2018] @
       utf16 ''Jess and Jason'' @
       [0x2019] @
       utf16 '', she calls them. Their life '' @
       [0x2013] @
       utf16 '' as she sees it '' @
       [0x2013] @
       utf16 '' is perfect. If only Rachel could be that happy...'',
     rating = Some 4.2,
     author = utf16 ''John Grisham'',
     year = 2016\<rparr>,
    \<lparr>bid = utf16 ''3y-67bb6Z'',
     title = utf16 ''Fahrenheit 451'',
     description =
       utf16 ''The terrifyingly prophetic novel of a post-literate future.'',
     rating = Some 4.6,
     author = utf16 ''Ray Bradbury'',
     year = 1953\<rparr>,
    \<lparr>bid = utf16 ''Rw3sPphui'',
     title = utf16 ''To Kill a Mockingbird'',
     description =
       utf16 ''The perennially beloved and treacly account of growing up in a small Southern '' @
       utf16 ''town during the Depression....To read the novel is, for most, an exercise in '' @
       utf16 ''wish-fulfillment and self-congratulation, a chance to consider thorny issues of '' @
       utf16 ''race and prejudice from a safe distance and with the comfortable certainty that '' @
       utf16 ''the reader would never harbor the racist attitudes espoused by the lowlifes in '' @
       utf16 ''the novel.'',
     rating = Some 4.6,
     author = utf16 ''Harper Lee'',
     year = 1960\<rparr>,
    \<lparr>bid = utf16 ''b8eWGRQo6'',
     title = utf16 ''The Shining'',
     description =
       utf16 ''Jack Torrance'' @
       [0x2019] @
       utf16 ''s new job at the Overlook Hotel is the perfect chance for a fresh start. As the '' @
       utf16 ''off-season caretaker at the atmospheric old hotel, he'' @
       [0x2019] @
       utf16 ''ll have plenty of time to spend reconnecting with his family and working on his '' @
       utf16 ''writing. But as the harsh winter weather sets in, the idyllic location feels '' @
       utf16 ''ever more remote . . . and more sinister'',
     rating = Some 4.7,
     author = utf16 ''Stephen King'',
     year = 1980\<rparr>,
    \<lparr>bid = utf16 ''HVL-jHzdH'',
     title = utf16 ''Foundation'',
     description =
       utf16 ''The first novel in Isaac Asimov'' @
       [0x2019] @
       utf16 ''s classic science-fiction masterpiece, the Foundation series'',
     rating = Some 4.5,
     author = utf16 ''Isaak Asimov'',
     year = 1942\<rparr>,
    \<lparr>bid = utf16 ''eqbOaeNk-'',
     title = utf16 ''The Catcher in the Rye'',
     description =
       utf16 ''The hero-narrator of The Catcher in the Rye is an ancient child of sixteen, a '' @
       utf16 ''native New Yorker named Holden Caulfield.Through circumstances that tend to '' @
       utf16 ''preclude adult, secondhand description, he leaves his prep school in '' @
       utf16 ''Pennsylvania and goes underground in New York City for three days.'',
     rating = Some 4.6,
     author = utf16 ''J. D. Salinger'',
     year = 1951\<rparr>]"

text \<open>
  The payload that \<open>addBook\<close> publishes is the object \<open>{ addBook: newBook }\<close>.
\<close>

record envelope =
  addBook_key :: Book

text \<open>
  \<open>PubSub.publish\<close> of graphql-subscriptions hands the payload to the listeners of the
  trigger while the call runs. The model keeps a log of the publications, each with the
  contents of the array \<open>books\<close> at that moment: what a listener that runs then can read.
\<close>

record publication =
  trigger :: jsstring
  payload :: envelope
  store_at_publish :: "Book list"

record server =
  store :: "Book list"
  pubsub :: "publication list"

definition initial_server :: server where
  "initial_server = \<lparr>store = books, pubsub = []\<rparr>"

definition push :: "Book \<Rightarrow> server \<Rightarrow> server" where
  "push book s = s\<lparr>store := store s @ [book]\<rparr>"

definition publish :: "jsstring \<Rightarrow> envelope \<Rightarrow> server \<Rightarrow> server" where
  "publish triggerName p s =
     s\<lparr>pubsub := pubsub s @ [\<lparr>trigger = triggerName, payload = p, store_at_publish = store s\<rparr>]\<rparr>"

section \<open>The resolvers\<close>

definition allBooks ::
  "(jsstring \<Rightarrow> jsstring) \<Rightarrow> jsstring option \<Rightarrow> Book list \<Rightarrow> Book list" where
  "allBooks toLowerCase search bs =
     (case search of
        None \<Rightarrow> bs
      | Some s \<Rightarrow>
          if \<not> nonempty s then bs
          else filter (\<lambda>book. includes_str (toLowerCase (title book)) (toLowerCase s)) bs)"

definition getBook :: "Book list \<Rightarrow> jsstring \<Rightarrow> Book option" where
  "getBook bs i = find (\<lambda>book. bid book = i) bs"

text \<open>
  \<open>addBook\<close>: the identifier is what \<open>nanoid()\<close> returns at this call. nanoid is a random
  generator outside the program, so its result is an argument of the model.
\<close>

definition addBook :: "jsstring \<Rightarrow> BookInput \<Rightarrow> server \<Rightarrow> Book \<times> server" where
  "addBook nanoid input s =
     (let newBook =
            \<lparr>bid = nanoid,
             title = in_title input,
             description = js_or nonempty (in_description input) [],
             rating = js_or_null nonzero (in_rating input) None,
             author = in_author input,
             year = in_year input\<rparr>;
          s1 = push newBook s;
          s2 = publish (utf16 ''bookSub'') \<lparr>addBook_key = newBook\<rparr> s1
      in (newBook, s2))"

definition deleteBook :: "jsstring \<Rightarrow> Book list \<Rightarrow> Book option \<times> Book list" where
  "deleteBook i bs =
     (case findIndex (\<lambda>book. bid book = i) bs of
        Some index \<Rightarrow>
          (let (deletedBook, bs') = splice index 1 bs in (first_elem deletedBook, bs'))
      | None \<Rightarrow> (None, bs))"

text \<open>
  \<open>updateBook\<close>: \<open>books.find\<close> returns the stored object itself, so the assignments to
  \<open>bookToUpdate\<close> change the array in the slot of the first Book with that id. The model
  keeps that slot and writes the Book back there.
\<close>

definition merge :: "UpdateBookInput \<Rightarrow> Book \<Rightarrow> Book" where
  "merge input bookToUpdate =
     bookToUpdate
       \<lparr>title := js_or nonempty (up_title input) (title bookToUpdate),
        description := js_or nonempty (up_description input) (description bookToUpdate),
        author := js_or nonempty (up_author input) (author bookToUpdate),
        year := js_or nonzero (up_year input) (year bookToUpdate),
        rating := js_or_null nonzero (up_rating input) (rating bookToUpdate)\<rparr>"

definition updateBook :: "UpdateBookInput \<Rightarrow> Book list \<Rightarrow> Book option \<times> Book list" where
  "updateBook input bs =
     (case findIndex (\<lambda>book. bid book = up_id input) bs of
        Some slot \<Rightarrow>
          (let bookToUpdate = merge input (bs ! slot)
           in (Some bookToUpdate, bs[slot := bookToUpdate]))
      | None \<Rightarrow> (None, bs))"

text \<open>
  The subscription \<open>bookSub\<close>: \<open>subscribe\<close> listens on the trigger \<open>bookSub\<close>, \<open>resolve\<close>
  takes the Book out of the payload. A subscriber that joined when the log held \<open>n\<close>
  publications is sent what was published on the trigger from then on.
\<close>

definition bookSub_resolve :: "envelope \<Rightarrow> Book" where
  "bookSub_resolve p = addBook_key p"

definition bookSub :: "nat \<Rightarrow> server \<Rightarrow> Book list" where
  "bookSub n s =
     map (\<lambda>p. bookSub_resolve (payload p))
       (filter (\<lambda>p. trigger p = utf16 ''bookSub'') (drop n (pubsub s)))"

section \<open>The fields as the executable schema serves them\<close>

text \<open>
  \<open>addBook(input: BookInput!): Book!\<close>: the argument is coerced first, and the resolver
  runs only on an argument that passed.
\<close>

definition exec_addBook ::
  "jsstring \<Rightarrow> BookInput_request \<Rightarrow> server \<Rightarrow> (error + Book) \<times> server" where
  "exec_addBook nanoid r s =
     (case coerce_BookInput r of
        Inl e \<Rightarrow> (Inl e, s)
      | Inr input \<Rightarrow> (let (newBook, s') = addBook nanoid input s in (Inr newBook, s')))"

text \<open>
  \<open>getBook(id: ID!): Book!\<close>: the result type is non-null, so a resolver result of
  \<open>undefined\<close> is completed to the field error
  \<open>Cannot return null for non-nullable field Query.getBook\<close>.
\<close>

definition exec_getBook :: "jsstring \<Rightarrow> Book list \<Rightarrow> error + Book" where
  "exec_getBook i bs =
     (case getBook bs i of None \<Rightarrow> Inl NullForNonNullable | Some book \<Rightarrow> Inr book)"

section \<open>Sequences of mutations\<close>

datatype mutation =
  Create jsstring BookInput
  | Update UpdateBookInput
  | Delete jsstring

fun apply_mutation :: "mutation \<Rightarrow> server \<Rightarrow> server" where
  "apply_mutation (Create nanoid input) s = snd (addBook nanoid input s)"
| "apply_mutation (Update input) s = s\<lparr>store := snd (updateBook input (store s))\<rparr>"
| "apply_mutation (Delete i) s = s\<lparr>store := snd (deleteBook i (store s))\<rparr>"

text \<open>All the states that a sequence of mutations goes through, the first one included.\<close>

fun states :: "mutation list \<Rightarrow> server \<Rightarrow> server list" where
  "states [] s = [s]"
| "states (m # ms) s = s # states ms (apply_mutation m s)"

text \<open>
  A run in which nanoid never repeats an id that is in use: each identifier it hands out
  is not the id of a Book that is in the store at that moment. \<open>addBook\<close> does not check
  this.
\<close>

fun fresh_ids :: "mutation list \<Rightarrow> server \<Rightarrow> bool" where
  "fresh_ids [] s = True"
| "fresh_ids (Create nanoid input # ms) s =
     (nanoid \<notin> set (map bid (store s)) \<and> fresh_ids ms (apply_mutation (Create nanoid input) s))"
| "fresh_ids (m # ms) s = fresh_ids ms (apply_mutation m s)"

text \<open>
  What \<open>nanoid()\<close> can return: called without a size it gives 21 characters, each taken
  from the URL-friendly alphabet of the package (letters, digits, \<open>_\<close> and \<open>-\<close>).
\<close>

definition urlAlphabet :: jsstring where
  "urlAlphabet = utf16 ''useandom-26T198340PX75pxJACKVERYMINDBUSHWOLF_GQZbfghjklqvwyzrict''"

definition nanoid_result :: "jsstring \<Rightarrow> bool" where
  "nanoid_result i = (length i = 21 \<and> set i \<subseteq> set urlAlphabet)"

section \<open>Auxiliary facts\<close>

lemma unat_of_char16: "unat (of_char c :: 16 word) = of_char c"
proof -
  have "(of_char c :: 16 word) = of_nat (of_char c)"
    by (simp add: of_nat_of_char)
  then have "unat (of_char c :: 16 word) = (of_char c :: nat) mod 2 ^ 16"
    by (simp add: unat_of_nat)
  moreover have "(of_char c :: nat) < 256"
    by simp
  ultimately show ?thesis by simp
qed

lemma utf16_eq_iff: "utf16 a = utf16 b \<longleftrightarrow> a = b"
proof -
  have "inj (of_char :: char \<Rightarrow> 16 word)"
  proof (rule injI)
    fix x y :: char
    assume "(of_char x :: 16 word) = of_char y"
    then have "unat (of_char x :: 16 word) = unat (of_char y :: 16 word)"
      by simp
    then have "(of_char x :: nat) = of_char y"
      by (simp only: unat_of_char16)
    then show "x = y" by simp
  qed
  then show ?thesis by (simp add: utf16_def inj_map_eq_map)
qed

lemma findIndex_less: "findIndex P xs = Some i \<Longrightarrow> i < length xs \<and> P (xs ! i)"
  by (induction xs arbitrary: i) (auto split: if_splits)

lemma findIndex_first: "findIndex P xs = Some i \<Longrightarrow> j < i \<Longrightarrow> \<not> P (xs ! j)"
proof (induction xs arbitrary: i j)
  case Nil
  then show ?case by simp
next
  case (Cons x xs)
  then show ?case by (cases j) (auto split: if_splits)
qed

lemma findIndex_None_iff: "findIndex P xs = None \<longleftrightarrow> (\<forall>x\<in>set xs. \<not> P x)"
  by (induction xs) auto

lemma find_findIndex: "find P xs = map_option ((!) xs) (findIndex P xs)"
  by (induction xs) (auto simp: option.map_comp comp_def)

lemma getBook_findIndex:
  "getBook bs i = map_option ((!) bs) (findIndex (\<lambda>book. bid book = i) bs)"
  by (simp add: getBook_def find_findIndex)

lemma includes_str_sublist: "includes_str xs needle \<longleftrightarrow> sublist needle xs"
  by (induction xs) (auto simp: sublist_Cons_right)

lemma distinct_books: "distinct (map bid books)"
  by (simp add: books_def utf16_eq_iff)

lemma bid_merge: "bid (merge input book) = bid book"
  by (simp add: merge_def)

lemma map_bid_updateBook: "map bid (snd (updateBook input bs)) = map bid bs"
proof (cases "findIndex (\<lambda>book. bid book = up_id input) bs")
  case None
  then show ?thesis by (simp add: updateBook_def)
next
  case (Some slot)
  then have "slot < length bs"
    by (simp add: findIndex_less)
  then have "(map bid bs)[slot := bid (bs ! slot)] = map bid bs"
    by (simp add: list_update_same_conv)
  with Some show ?thesis
    by (simp add: updateBook_def Let_def map_update bid_merge)
qed

lemma store_deleteBook:
  "findIndex (\<lambda>book. bid book = i) bs = Some index \<Longrightarrow>
   deleteBook i bs = (Some (bs ! index), take index bs @ drop (Suc index) bs)"
proof -
  assume found: "findIndex (\<lambda>book. bid book = i) bs = Some index"
  then have "index < length bs"
    by (simp add: findIndex_less)
  then have "take 1 (drop index bs) = [bs ! index]"
    by (simp add: take_Suc_conv_app_nth Cons_nth_drop_Suc [symmetric])
  with found show ?thesis
    by (simp add: deleteBook_def splice_def first_elem_def)
qed

lemma distinct_take_drop: "distinct xs \<Longrightarrow> distinct (take n xs @ drop (Suc n) xs)"
proof (induction xs arbitrary: n)
  case Nil
  then show ?case by simp
next
  case (Cons x xs)
  show ?case
  proof (cases n)
    case 0
    with Cons.prems show ?thesis by simp
  next
    case (Suc k)
    have "x \<notin> set (take k xs)" and "x \<notin> set (drop (Suc k) xs)"
      using Cons.prems by (auto dest: in_set_takeD in_set_dropD)
    moreover have "distinct xs"
      using Cons.prems by simp
    then have "distinct (take k xs @ drop (Suc k) xs)"
      by (rule Cons.IH)
    ultimately show ?thesis
      using Suc by simp
  qed
qed

lemma distinct_deleteBook:
  "distinct (map bid bs) \<Longrightarrow> distinct (map bid (snd (deleteBook i bs)))"
proof (cases "findIndex (\<lambda>book. bid book = i) bs")
  case None
  assume "distinct (map bid bs)"
  with None show ?thesis by (simp add: deleteBook_def)
next
  case (Some index)
  assume "distinct (map bid bs)"
  then have "distinct (take index (map bid bs) @ drop (Suc index) (map bid bs))"
    by (rule distinct_take_drop)
  with Some show ?thesis
    by (simp add: store_deleteBook take_map drop_map)
qed

lemma store_addBook: "store (snd (addBook nanoid input s)) = store s @ [fst (addBook nanoid input s)]"
  by (simp add: addBook_def Let_def push_def publish_def)

lemma bid_addBook: "bid (fst (addBook nanoid input s)) = nanoid"
  by (simp add: addBook_def Let_def)

lemma distinct_apply_mutation:
  "distinct (map bid (store s)) \<Longrightarrow> fresh_ids (m # ms) s \<Longrightarrow>
   distinct (map bid (store (apply_mutation m s)))"
proof (cases m)
  case (Create nanoid input)
  assume "distinct (map bid (store s))" and "fresh_ids (m # ms) s"
  with Create show ?thesis
    by (simp add: store_addBook bid_addBook)
next
  case (Update input)
  assume "distinct (map bid (store s))"
  with Update show ?thesis by (simp add: map_bid_updateBook)
next
  case (Delete i)
  assume "distinct (map bid (store s))"
  with Delete show ?thesis by (simp add: distinct_deleteBook)
qed

lemma fresh_ids_tail: "fresh_ids (m # ms) s \<Longrightarrow> fresh_ids ms (apply_mutation m s)"
  by (cases m) simp_all

lemma distinct_states:
  "distinct (map bid (store s)) \<Longrightarrow> fresh_ids ms s \<Longrightarrow>
   \<forall>s' \<in> set (states ms s). distinct (map bid (store s'))"
proof (induction ms arbitrary: s)
  case Nil
  then show ?case by simp
next
  case (Cons m ms)
  have "distinct (map bid (store (apply_mutation m s)))"
    using Cons.prems by (rule distinct_apply_mutation)
  moreover have "fresh_ids ms (apply_mutation m s)"
    using Cons.prems(2) by (rule fresh_ids_tail)
  ultimately have "\<forall>s' \<in> set (states ms (apply_mutation m s)). distinct (map bid (store s'))"
    by (rule Cons.IH)
  with Cons.prems(1) show ?case by simp
qed


lemma updateBook_found:
  "findIndex (\<lambda>book. bid book = up_id input) bs = Some slot \<Longrightarrow>
   updateBook input bs = (Some (merge input (bs ! slot)), bs[slot := merge input (bs ! slot)])"
  by (simp add: updateBook_def Let_def)

lemma updateBook_not_found:
  "findIndex (\<lambda>book. bid book = up_id input) bs = None \<Longrightarrow> updateBook input bs = (None, bs)"
  by (simp add: updateBook_def)

lemma getBook_None_iff: "getBook bs i = None \<longleftrightarrow> findIndex (\<lambda>book. bid book = i) bs = None"
  by (simp add: getBook_findIndex)

lemma getBook_Some_slot:
  "getBook bs i = Some book \<Longrightarrow>
   \<exists>slot. findIndex (\<lambda>book. bid book = i) bs = Some slot \<and> bs ! slot = book"
  by (auto simp: getBook_findIndex)








lemma remove1_first_nth:
  "n < length xs \<Longrightarrow> \<forall>j<n. xs ! j \<noteq> xs ! n \<Longrightarrow>
   remove1 (xs ! n) xs = take n xs @ drop (Suc n) xs"
proof (induction xs arbitrary: n)
  case Nil
  then show ?case by simp
next
  case (Cons x xs)
  show ?case
  proof (cases n)
    case 0
    then show ?thesis by simp
  next
    case (Suc k)
    have "x \<noteq> xs ! k"
      using Cons.prems(2) Suc by (auto dest: spec [of _ 0])
    moreover have "\<forall>j<k. xs ! j \<noteq> xs ! k"
    proof (intro allI impI)
      fix j
      assume "j < k"
      then have "Suc j < n"
        using Suc by simp
      with Cons.prems(2) have "(x # xs) ! Suc j \<noteq> (x # xs) ! n"
        by blast
      then show "xs ! j \<noteq> xs ! k"
        using Suc by simp
    qed
    moreover have "k < length xs"
      using Cons.prems(1) Suc by simp
    ultimately have "remove1 (xs ! k) xs = take k xs @ drop (Suc k) xs"
      by (intro Cons.IH)
    with \<open>x \<noteq> xs ! k\<close> Suc show ?thesis
      by simp
  qed
qed

lemma getBook_after_deleteBook:
  assumes "distinct (map bid bs)"
  shows "getBook (snd (deleteBook i bs)) i = None"
proof (cases "findIndex (\<lambda>book. bid book = i) bs")
  case None
  then show ?thesis
    by (simp add: deleteBook_def getBook_None_iff)
next
  case (Some index)
  then have index: "index < length bs" "bid (bs ! index) = i"
    using findIndex_less [of "\<lambda>book. bid book = i" bs index] by simp_all
  have split: "take index (map bid bs) @ map bid bs ! index # drop (Suc index) (map bid bs) =
      map bid bs"
    by (rule id_take_nth_drop [symmetric]) (simp add: index)
  have "distinct (take index (map bid bs) @ map bid bs ! index # drop (Suc index) (map bid bs))"
    using assms by (simp only: split)
  moreover have "map bid bs ! index = i"
    using index by simp
  ultimately have "distinct (take index (map bid bs) @ i # drop (Suc index) (map bid bs))"
    by simp
  then have "i \<notin> set (take index (map bid bs))" and "i \<notin> set (drop (Suc index) (map bid bs))"
    by simp_all
  then have "i \<notin> bid ` set (take index bs @ drop (Suc index) bs)"
    by (simp add: take_map drop_map image_Un)
  then have "\<forall>book \<in> set (take index bs @ drop (Suc index) bs). bid book \<noteq> i"
    by blast
  then have "getBook (take index bs @ drop (Suc index) bs) i = None"
    unfolding getBook_def find_None_iff by blast
  with Some show ?thesis
    by (simp add: store_deleteBook)
qed



lemma getBook_books_Fahrenheit: "getBook books (utf16 ''3y-67bb6Z'') = Some (books ! 2)"
  by (simp add: getBook_def books_def utf16_eq_iff)

lemma getBook_books_unknown: "getBook books (utf16 ''unknown'') = None"
  by (simp add: getBook_def books_def utf16_eq_iff)

lemma pubsub_addBook:
  "pubsub (snd (addBook nanoid input s)) =
     pubsub s @
       [\<lparr>trigger = utf16 ''bookSub'', payload = \<lparr>addBook_key = fst (addBook nanoid input s)\<rparr>,
         store_at_publish = store s @ [fst (addBook nanoid input s)]\<rparr>]"
  by (simp add: addBook_def Let_def push_def publish_def)

lemma fields_addBook:
  "title (fst (addBook nanoid input s)) = in_title input"
  "author (fst (addBook nanoid input s)) = in_author input"
  "year (fst (addBook nanoid input s)) = in_year input"
  "description (fst (addBook nanoid input s)) =
     (case in_description input of None \<Rightarrow> [] | Some d \<Rightarrow> d)"
  "rating (fst (addBook nanoid input s)) =
     (case in_rating input of None \<Rightarrow> None | Some r \<Rightarrow> if r = 0 then None else Some r)"
  by (simp_all add: addBook_def Let_def js_or_def js_or_null_def nonempty_def nonzero_def
      split: option.split)

lemma states_not_Nil: "states ms s \<noteq> []"
  by (cases ms) simp_all

lemma ids_after_Create:
  "map bid (store (apply_mutation (Create nanoid input) s)) = map bid (store s) @ [nanoid]"
  by (simp add: store_addBook bid_addBook)

lemma ids_after_Update: "map bid (store (apply_mutation (Update input) s)) = map bid (store s)"
  by (simp add: map_bid_updateBook)

lemma ids_after_Delete:
  "set (map bid (store (apply_mutation (Delete i) s))) \<subseteq> set (map bid (store s))"
proof (cases "findIndex (\<lambda>book. bid book = i) (store s)")
  case None
  then show ?thesis by (simp add: deleteBook_def)
next
  case (Some index)
  have "set (take index (store s) @ drop (Suc index) (store s)) \<subseteq> set (store s)"
    by (auto dest: in_set_takeD in_set_dropD)
  then have "bid ` set (take index (store s) @ drop (Suc index) (store s)) \<subseteq> bid ` set (store s)"
    by (rule image_mono)
  with Some show ?thesis
    by (simp add: store_deleteBook image_Un)
qed

lemma findIndex_append:
  "\<forall>x \<in> set xs. \<not> P x \<Longrightarrow> findIndex P ys = Some j \<Longrightarrow>
   findIndex P (xs @ ys) = Some (length xs + j)"
  by (induction xs) simp_all

lemma findIndex_books_nanoid:
  "findIndex (\<lambda>book. bid book = utf16 ''V1StGXR8_Z5jdHi6B-myT'') books = None"
  by (simp add: findIndex_None_iff books_def utf16_eq_iff)

lemma length_books: "length books = 7"
  by (simp add: books_def)

section \<open>The claims\<close>

subsection \<open>Seed data and listing\<close>

text \<open>
  Claim C10. When the process starts the store is not empty: it holds exactly the seven
  seed Books, with the ids \<open>n12clfp3K\<close>, \<open>TaFvKQmgQ\<close>, \<open>3y-67bb6Z\<close>, \<open>Rw3sPphui\<close>,
  \<open>b8eWGRQo6\<close>, \<open>HVL-jHzdH\<close> and \<open>eqbOaeNk-\<close> in this order, nothing has been published,
  and \<open>allBooks\<close> without a search term returns these seven Books in the order of their
  declaration.
\<close>

theorem initial_store_seven_seed_books:
  "store initial_server = books \<and> pubsub initial_server = [] \<and> length books = 7 \<and>
   map bid books =
     [utf16 ''n12clfp3K'', utf16 ''TaFvKQmgQ'', utf16 ''3y-67bb6Z'', utf16 ''Rw3sPphui'',
      utf16 ''b8eWGRQo6'', utf16 ''HVL-jHzdH'', utf16 ''eqbOaeNk-''] \<and>
   map title books =
     [utf16 ''The Guardians'', utf16 ''The Girl on the Train'', utf16 ''Fahrenheit 451'',
      utf16 ''To Kill a Mockingbird'', utf16 ''The Shining'', utf16 ''Foundation'',
      utf16 ''The Catcher in the Rye''] \<and>
   allBooks toLowerCase None (store initial_server) = books"
  by (simp add: initial_server_def allBooks_def books_def)

text \<open>
  Claim C4. For every store, every search argument and whatever the lower-casing of the
  runtime does: \<open>allBooks\<close> with an absent or an empty search term returns all Books;
  with a non-empty search term it returns exactly the Books whose lower-cased title
  contains the lower-cased search term as a substring; in each case the result keeps the
  order of the store; when no title matches the result is the empty list. The function
  is total: there is no failing branch.
\<close>

theorem allBooks_search:
  "allBooks toLowerCase None bs = bs \<and>
   allBooks toLowerCase (Some []) bs = bs \<and>
   (s \<noteq> [] \<longrightarrow>
      allBooks toLowerCase (Some s) bs =
        filter (\<lambda>book. \<exists>before after.
                  toLowerCase (title book) = before @ toLowerCase s @ after) bs) \<and>
   subseq (allBooks toLowerCase search bs) bs \<and>
   (s \<noteq> [] \<and>
    (\<forall>book \<in> set bs. \<nexists>before after.
        toLowerCase (title book) = before @ toLowerCase s @ after) \<longrightarrow>
      allBooks toLowerCase (Some s) bs = [])"
proof -
  have all: "allBooks toLowerCase None bs = bs" "allBooks toLowerCase (Some []) bs = bs"
    by (simp_all add: allBooks_def nonempty_def)
  have match: "allBooks toLowerCase (Some s) bs =
      filter (\<lambda>book. \<exists>before after.
                toLowerCase (title book) = before @ toLowerCase s @ after) bs"
    if "s \<noteq> []"
    using that by (simp add: allBooks_def nonempty_def includes_str_sublist sublist_def)
  have order: "subseq (allBooks toLowerCase search bs) bs"
    by (cases search) (simp_all add: allBooks_def)
  have none: "allBooks toLowerCase (Some s) bs = []"
    if "s \<noteq> []"
      and "\<forall>book \<in> set bs. \<nexists>before after.
             toLowerCase (title book) = before @ toLowerCase s @ after"
    using that by (simp add: match filter_empty_conv)
  from all match order none show ?thesis
    by blast
qed

text \<open>
  The example of the specification: in a store that holds \<open>The Girl on the Train\<close> and
  \<open>Foundation\<close>, the search term \<open>train\<close>, in whatever case, selects the first Book only.
  All the strings are ASCII, where the lower-casing of the runtime is \<open>lower_ascii\<close>.
\<close>

theorem allBooks_search_witness:
  "utf16 ''TRAIN'' \<noteq> [] \<and>
   allBooks lower_ascii (Some (utf16 ''TRAIN'')) [books ! 1, books ! 5] =
     filter (\<lambda>book. \<exists>before after.
               lower_ascii (title book) = before @ lower_ascii (utf16 ''TRAIN'') @ after)
       [books ! 1, books ! 5] \<and>
   allBooks lower_ascii (Some (utf16 ''TRAIN'')) [books ! 1, books ! 5] = [books ! 1] \<and>
   allBooks lower_ascii (Some (utf16 ''train'')) [books ! 1, books ! 5] = [books ! 1]"
proof -
  have ne: "utf16 ''TRAIN'' \<noteq> []"
    by (simp add: utf16_def)
  have "allBooks lower_ascii (Some (utf16 ''TRAIN'')) [books ! 1, books ! 5] =
     filter (\<lambda>book. \<exists>before after.
               lower_ascii (title book) = before @ lower_ascii (utf16 ''TRAIN'') @ after)
       [books ! 1, books ! 5]"
    using allBooks_search [of lower_ascii "[books ! 1, books ! 5]" "utf16 ''TRAIN''" None] ne
    by blast
  moreover have "allBooks lower_ascii (Some (utf16 ''TRAIN'')) [books ! 1, books ! 5] =
      [books ! 1]"
    by (simp add: allBooks_def books_def utf16_def lower_ascii_def nonempty_def)
  moreover have "allBooks lower_ascii (Some (utf16 ''train'')) [books ! 1, books ! 5] =
      [books ! 1]"
    by (simp add: allBooks_def books_def utf16_def lower_ascii_def nonempty_def)
  ultimately show ?thesis
    using ne by (intro conjI)
qed

subsection \<open>Update\<close>



text \<open>
  Claim C9. For every store and every update input: the store keeps its length and the
  id of the Book in each position, so the id of the target Book is not changed; the Book
  that a successful update returns carries the id of the input; every Book with another
  id is left as it was; and an update whose id is not found leaves the whole store
  unchanged.
\<close>

theorem updateBook_frame:
  "length (snd (updateBook input bs)) = length bs \<and>
   map bid (snd (updateBook input bs)) = map bid bs \<and>
   (\<forall>updated. fst (updateBook input bs) = Some updated \<longrightarrow>
      bid updated = up_id input \<and>
      (\<exists>book. getBook bs (up_id input) = Some book \<and> bid updated = bid book)) \<and>
   (\<forall>j<length bs. bid (bs ! j) \<noteq> up_id input \<longrightarrow> snd (updateBook input bs) ! j = bs ! j) \<and>
   (getBook bs (up_id input) = None \<longrightarrow> updateBook input bs = (None, bs))"
proof (cases "findIndex (\<lambda>book. bid book = up_id input) bs")
  case None
  then have "updateBook input bs = (None, bs)"
    by (rule updateBook_not_found)
  then show ?thesis
    by simp
next
  case (Some slot)
  let ?u = "merge input (bs ! slot)"
  have slot: "slot < length bs" "bid (bs ! slot) = up_id input"
    using findIndex_less [OF Some] by simp_all
  have result: "updateBook input bs = (Some ?u, bs[slot := ?u])"
    using Some by (rule updateBook_found)
  have "length (snd (updateBook input bs)) = length bs"
    by (simp add: result)
  moreover have "map bid (snd (updateBook input bs)) = map bid bs"
    by (rule map_bid_updateBook)
  moreover have "\<forall>updated. fst (updateBook input bs) = Some updated \<longrightarrow>
      bid updated = up_id input \<and>
      (\<exists>book. getBook bs (up_id input) = Some book \<and> bid updated = bid book)"
    using Some slot by (auto simp: result bid_merge getBook_findIndex)
  moreover have "\<forall>j<length bs. bid (bs ! j) \<noteq> up_id input \<longrightarrow>
      snd (updateBook input bs) ! j = bs ! j"
  proof (intro allI impI)
    fix j
    assume "bid (bs ! j) \<noteq> up_id input"
    with slot(2) have "j \<noteq> slot"
      by blast
    then show "snd (updateBook input bs) ! j = bs ! j"
      by (simp add: result)
  qed
  moreover have "getBook bs (up_id input) = None \<longrightarrow> updateBook input bs = (None, bs)"
    using Some by (simp add: getBook_None_iff)
  ultimately show ?thesis
    by (intro conjI)
qed

text \<open>
  The update of \<open>Foundation\<close> above keeps the seven ids of the seed store and leaves the
  Book \<open>Fahrenheit 451\<close> as it was; an update for an id that no Book has changes nothing.
\<close>

theorem updateBook_frame_witness:
  "(2::nat) < length books \<and> bid (books ! 2) \<noteq> utf16 ''HVL-jHzdH'' \<and>
   snd (updateBook
          \<lparr>up_id = utf16 ''HVL-jHzdH'', up_title = Some (utf16 ''Foundation and Empire''),
           up_description = Some [], up_rating = Some 0, up_author = None,
           up_year = Some 1952\<rparr> books) ! 2 = books ! 2 \<and>
   getBook books (utf16 ''unknown'') = None \<and>
   updateBook
     \<lparr>up_id = utf16 ''unknown'', up_title = Some (utf16 ''Foundation and Empire''),
      up_description = None, up_rating = None, up_author = None, up_year = None\<rparr> books =
     (None, books)"
proof -
  let ?input = "\<lparr>up_id = utf16 ''HVL-jHzdH'', up_title = Some (utf16 ''Foundation and Empire''),
     up_description = Some [], up_rating = Some 0, up_author = None, up_year = Some 1952\<rparr>"
  let ?other = "\<lparr>up_id = utf16 ''unknown'', up_title = Some (utf16 ''Foundation and Empire''),
     up_description = None, up_rating = None, up_author = None, up_year = None\<rparr>"
  have len: "(2::nat) < length books"
    by (simp add: books_def)
  have other_id: "bid (books ! 2) \<noteq> up_id ?input"
    by (simp add: books_def utf16_eq_iff)
  have "\<forall>j<length books. bid (books ! j) \<noteq> up_id ?input \<longrightarrow>
      snd (updateBook ?input books) ! j = books ! j"
    using updateBook_frame [of ?input books] by (elim conjE)
  with len other_id have kept: "snd (updateBook ?input books) ! 2 = books ! 2"
    by blast
  have unknown: "getBook books (up_id ?other) = None"
    by (simp add: getBook_books_unknown)
  have "getBook books (up_id ?other) = None \<longrightarrow> updateBook ?other books = (None, books)"
    using updateBook_frame [of ?other books] by (elim conjE)
  with unknown have "updateBook ?other books = (None, books)"
    by (rule rev_mp)
  with len other_id kept unknown show ?thesis
    by simp
qed

subsection \<open>Delete\<close>

text \<open>
  Claim C8, as the source has it. For every store whose Books have distinct ids and every
  id: after \<open>deleteBook\<close> for the id, \<open>getBook\<close> for the id returns the absent value. For
  every store: when a Book has the id, \<open>deleteBook\<close> returns that Book and takes it out of
  the store, which becomes one shorter; when no Book has the id, \<open>deleteBook\<close> returns the
  absent value and the store is unchanged.
\<close>

theorem deleteBook_then_getBook:
  "(distinct (map bid bs) \<longrightarrow> getBook (snd (deleteBook i bs)) i = None) \<and>
   (\<forall>book. getBook bs i = Some book \<longrightarrow>
      fst (deleteBook i bs) = Some book \<and>
      snd (deleteBook i bs) = remove1 book bs \<and>
      Suc (length (snd (deleteBook i bs))) = length bs) \<and>
   (getBook bs i = None \<longrightarrow> deleteBook i bs = (None, bs))"
proof (intro conjI allI impI)
  assume "distinct (map bid bs)"
  then show "getBook (snd (deleteBook i bs)) i = None"
    by (rule getBook_after_deleteBook)
next
  assume "getBook bs i = None"
  then show "deleteBook i bs = (None, bs)"
    by (simp add: getBook_None_iff deleteBook_def)
next
  fix book
  assume "getBook bs i = Some book"
  then obtain index
    where found: "findIndex (\<lambda>book. bid book = i) bs = Some index"
      and book: "bs ! index = book"
    using getBook_Some_slot by blast
  have index: "index < length bs" "bid (bs ! index) = i"
    using findIndex_less [OF found] by simp_all
  have result: "deleteBook i bs = (Some book, take index bs @ drop (Suc index) bs)"
    using store_deleteBook [OF found] book by simp
  have "\<forall>j<index. bs ! j \<noteq> bs ! index"
  proof (intro allI impI)
    fix j
    assume "j < index"
    with found have "bid (bs ! j) \<noteq> i"
      by (rule findIndex_first)
    with index(2) show "bs ! j \<noteq> bs ! index"
      by auto
  qed
  with index(1) have "remove1 (bs ! index) bs = take index bs @ drop (Suc index) bs"
    by (rule remove1_first_nth)
  then have removed: "snd (deleteBook i bs) = remove1 book bs"
    using book by (simp add: result)
  show "fst (deleteBook i bs) = Some book"
    by (simp add: result)
  show "snd (deleteBook i bs) = remove1 book bs"
    by (rule removed)
  show "Suc (length (snd (deleteBook i bs))) = length bs"
    using index(1) by (simp add: result)
qed

text \<open>
  In the seed store the Book \<open>Fahrenheit 451\<close> is returned by its deletion and cannot be
  read afterwards; deleting an id that no Book has returns the absent value and keeps the
  store.
\<close>

theorem deleteBook_then_getBook_witness:
  "distinct (map bid books) \<and>
   getBook (snd (deleteBook (utf16 ''3y-67bb6Z'') books)) (utf16 ''3y-67bb6Z'') = None \<and>
   getBook books (utf16 ''3y-67bb6Z'') = Some (books ! 2) \<and>
   fst (deleteBook (utf16 ''3y-67bb6Z'') books) = Some (books ! 2) \<and>
   Suc (length (snd (deleteBook (utf16 ''3y-67bb6Z'') books))) = length books \<and>
   getBook books (utf16 ''unknown'') = None \<and>
   deleteBook (utf16 ''unknown'') books = (None, books)"
proof -
  note claim = deleteBook_then_getBook [of books "utf16 ''3y-67bb6Z''"]
  have "getBook (snd (deleteBook (utf16 ''3y-67bb6Z'') books)) (utf16 ''3y-67bb6Z'') = None"
    using claim [THEN conjunct1] distinct_books by (rule mp)
  moreover have found: "fst (deleteBook (utf16 ''3y-67bb6Z'') books) = Some (books ! 2) \<and>
      snd (deleteBook (utf16 ''3y-67bb6Z'') books) = remove1 (books ! 2) books \<and>
      Suc (length (snd (deleteBook (utf16 ''3y-67bb6Z'') books))) = length books"
    using claim [THEN conjunct2, THEN conjunct1, THEN spec, of "books ! 2"]
      getBook_books_Fahrenheit
    by (rule mp)
  moreover note found [THEN conjunct1] found [THEN conjunct2, THEN conjunct2]
  moreover have "deleteBook (utf16 ''unknown'') books = (None, books)"
    using deleteBook_then_getBook [of books "utf16 ''unknown''", THEN conjunct2, THEN conjunct2]
      getBook_books_unknown
    by (rule mp)
  ultimately show ?thesis
    using distinct_books getBook_books_Fahrenheit getBook_books_unknown by (intro conjI)
qed

text \<open>
  Claim C8 as it was stated, for every store, fails in a store where two Books have one
  id. Such a store arises when nanoid returns the same id at two calls of \<open>addBook\<close>,
  which \<open>addBook\<close> does not check: \<open>deleteBook\<close> splices out the first of the two, and
  \<open>getBook\<close> then finds the second.
\<close>

theorem deleteBook_then_getBook_counterexample:
  "getBook
     (snd (deleteBook (utf16 ''V1StGXR8_Z5jdHi6B-myT'')
        (store (snd (addBook (utf16 ''V1StGXR8_Z5jdHi6B-myT'')
           \<lparr>in_title = utf16 ''Emma'', in_description = None, in_rating = None,
            in_author = utf16 ''Austen'', in_year = 1815\<rparr>
           (snd (addBook (utf16 ''V1StGXR8_Z5jdHi6B-myT'')
              \<lparr>in_title = utf16 ''Dune'', in_description = None, in_rating = None,
               in_author = utf16 ''Herbert'', in_year = 1965\<rparr> initial_server)))))))
     (utf16 ''V1StGXR8_Z5jdHi6B-myT'') \<noteq> None"
proof -
  let ?i = "utf16 ''V1StGXR8_Z5jdHi6B-myT''"
  let ?s1 = "snd (addBook ?i
      \<lparr>in_title = utf16 ''Dune'', in_description = None, in_rating = None,
       in_author = utf16 ''Herbert'', in_year = 1965\<rparr> initial_server)"
  let ?dune = "fst (addBook ?i
      \<lparr>in_title = utf16 ''Dune'', in_description = None, in_rating = None,
       in_author = utf16 ''Herbert'', in_year = 1965\<rparr> initial_server)"
  let ?emma = "fst (addBook ?i
      \<lparr>in_title = utf16 ''Emma'', in_description = None, in_rating = None,
       in_author = utf16 ''Austen'', in_year = 1815\<rparr> ?s1)"
  let ?s2 = "snd (addBook ?i
      \<lparr>in_title = utf16 ''Emma'', in_description = None, in_rating = None,
       in_author = utf16 ''Austen'', in_year = 1815\<rparr> ?s1)"
  have ids: "bid ?dune = ?i" "bid ?emma = ?i"
    by (rule bid_addBook)+
  have stored: "store ?s2 = books @ [?dune, ?emma]"
    by (simp add: store_addBook initial_server_def)
  have "\<forall>book \<in> set books. \<not> bid book = ?i"
    using findIndex_books_nanoid by (simp only: findIndex_None_iff)
  moreover have "findIndex (\<lambda>book. bid book = ?i) [?dune, ?emma] = Some 0"
    by (simp add: ids)
  ultimately have "findIndex (\<lambda>book. bid book = ?i) (books @ [?dune, ?emma]) =
      Some (length books + 0)"
    by (rule findIndex_append)
  then have "findIndex (\<lambda>book. bid book = ?i) (books @ [?dune, ?emma]) = Some 7"
    by (simp add: length_books)
  then have "deleteBook ?i (store ?s2) =
      (Some ((books @ [?dune, ?emma]) ! 7),
       take 7 (books @ [?dune, ?emma]) @ drop (Suc 7) (books @ [?dune, ?emma]))"
    unfolding stored by (rule store_deleteBook)
  then have "snd (deleteBook ?i (store ?s2)) = books @ [?emma]"
    by (simp add: length_books)
  moreover have "?emma \<in> set (books @ [?emma])"
    by simp
  with ids(2) have "\<exists>book. book \<in> set (books @ [?emma]) \<and> bid book = ?i"
    by blast
  then have "getBook (books @ [?emma]) ?i \<noteq> None"
    by (simp only: getBook_def find_None_iff not_not)
  ultimately show ?thesis
    by simp
qed

subsection \<open>Create\<close>

text \<open>
  Claim C5. For every call of \<open>addBook\<close>: the new Book is appended to the store before
  the event is published, so that the store that the publication meets already ends with
  the new Book; the payload published on the trigger \<open>bookSub\<close> holds exactly the Book
  that \<open>addBook\<close> stored and returns; \<open>resolve\<close> of the subscription gives that Book back
  unchanged, and a subscriber that was listening when the call began is sent this one
  Book.
\<close>

theorem addBook_publishes_stored_book:
  assumes "addBook nanoid input s = (newBook, s')"
  shows "store s' = store s @ [newBook] \<and>
    pubsub s' =
      pubsub s @
        [\<lparr>trigger = utf16 ''bookSub'', payload = \<lparr>addBook_key = newBook\<rparr>,
          store_at_publish = store s @ [newBook]\<rparr>] \<and>
    bookSub_resolve \<lparr>addBook_key = newBook\<rparr> = newBook \<and>
    bookSub (length (pubsub s)) s' = [newBook]"
proof -
  have newBook: "newBook = fst (addBook nanoid input s)" and s': "s' = snd (addBook nanoid input s)"
    using assms by simp_all
  have stored: "store s' = store s @ [newBook]"
    unfolding newBook s' by (rule store_addBook)
  have published: "pubsub s' =
      pubsub s @
        [\<lparr>trigger = utf16 ''bookSub'', payload = \<lparr>addBook_key = newBook\<rparr>,
          store_at_publish = store s @ [newBook]\<rparr>]"
    unfolding newBook s' by (rule pubsub_addBook)
  have resolved: "bookSub_resolve \<lparr>addBook_key = newBook\<rparr> = newBook"
    by (simp add: bookSub_resolve_def)
  have "bookSub (length (pubsub s)) s' = [newBook]"
    by (simp add: bookSub_def published resolved)
  with stored published resolved show ?thesis
    by (intro conjI)
qed

text \<open>
  Adding \<open>Dune\<close> to the seed store: the store becomes the seed Books followed by the new
  Book, and a subscriber present from the start receives exactly that Book.
\<close>

theorem addBook_publishes_stored_book_witness:
  "store (snd (addBook (utf16 ''V1StGXR8_Z5jdHi6B-myT'')
            \<lparr>in_title = utf16 ''Dune'', in_description = None, in_rating = None,
             in_author = utf16 ''Herbert'', in_year = 1965\<rparr> initial_server)) =
     books @
       [fst (addBook (utf16 ''V1StGXR8_Z5jdHi6B-myT'')
              \<lparr>in_title = utf16 ''Dune'', in_description = None, in_rating = None,
               in_author = utf16 ''Herbert'', in_year = 1965\<rparr> initial_server)] \<and>
   bookSub 0 (snd (addBook (utf16 ''V1StGXR8_Z5jdHi6B-myT'')
            \<lparr>in_title = utf16 ''Dune'', in_description = None, in_rating = None,
             in_author = utf16 ''Herbert'', in_year = 1965\<rparr> initial_server)) =
     [fst (addBook (utf16 ''V1StGXR8_Z5jdHi6B-myT'')
            \<lparr>in_title = utf16 ''Dune'', in_description = None, in_rating = None,
             in_author = utf16 ''Herbert'', in_year = 1965\<rparr> initial_server)]"
proof -
  let ?call = "addBook (utf16 ''V1StGXR8_Z5jdHi6B-myT'')
     \<lparr>in_title = utf16 ''Dune'', in_description = None, in_rating = None,
      in_author = utf16 ''Herbert'', in_year = 1965\<rparr> initial_server"
  have "?call = (fst ?call, snd ?call)"
    by simp
  then have claim: "store (snd ?call) = store initial_server @ [fst ?call] \<and>
    pubsub (snd ?call) =
      pubsub initial_server @
        [\<lparr>trigger = utf16 ''bookSub'', payload = \<lparr>addBook_key = fst ?call\<rparr>,
          store_at_publish = store initial_server @ [fst ?call]\<rparr>] \<and>
    bookSub_resolve \<lparr>addBook_key = fst ?call\<rparr> = fst ?call \<and>
    bookSub (length (pubsub initial_server)) (snd ?call) = [fst ?call]"
    by (rule addBook_publishes_stored_book)
  have "store (snd ?call) = store initial_server @ [fst ?call]"
    using claim by (elim conjE)
  then have "store (snd ?call) = books @ [fst ?call]"
    by (simp add: initial_server_def)
  moreover have "bookSub (length (pubsub initial_server)) (snd ?call) = [fst ?call]"
    using claim by (elim conjE)
  then have "bookSub 0 (snd ?call) = [fst ?call]"
    by (simp add: initial_server_def)
  ultimately show ?thesis
    by (rule conjI)
qed

text \<open>
  Claim C6, as the source has it. For every create input that passed the schema and
  every id that nanoid returns: the Book that is stored last and returned takes title,
  author and year from the input; its description is the supplied description, and the
  empty string when none is supplied; its rating is the supplied rating when one is
  supplied and is not zero, and absent when none is supplied or when zero is supplied;
  its id is the generated id, which is not empty.
\<close>

theorem addBook_defaults:
  assumes "nanoid_result nanoid" and "addBook nanoid input s = (newBook, s')"
  shows "store s' = store s @ [newBook] \<and>
    title newBook = in_title input \<and>
    author newBook = in_author input \<and>
    year newBook = in_year input \<and>
    description newBook = (case in_description input of None \<Rightarrow> [] | Some d \<Rightarrow> d) \<and>
    rating newBook =
      (case in_rating input of None \<Rightarrow> None | Some r \<Rightarrow> if r = 0 then None else Some r) \<and>
    bid newBook = nanoid \<and>
    bid newBook \<noteq> []"
proof -
  have newBook: "newBook = fst (addBook nanoid input s)" and s': "s' = snd (addBook nanoid input s)"
    using assms(2) by simp_all
  have "length nanoid = 21"
    using assms(1) by (simp add: nanoid_result_def)
  then have "nanoid \<noteq> []"
    by auto
  then show ?thesis
    unfolding newBook s' by (simp add: store_addBook bid_addBook fields_addBook)
qed

text \<open>
  \<open>Dune\<close> with the rating 4 and no description, under an id of the shape nanoid gives.
\<close>

theorem addBook_defaults_witness:
  "nanoid_result (utf16 ''V1StGXR8_Z5jdHi6B-myT'') \<and>
   description (fst (addBook (utf16 ''V1StGXR8_Z5jdHi6B-myT'')
            \<lparr>in_title = utf16 ''Dune'', in_description = None, in_rating = Some 4,
             in_author = utf16 ''Herbert'', in_year = 1965\<rparr> initial_server)) = [] \<and>
   rating (fst (addBook (utf16 ''V1StGXR8_Z5jdHi6B-myT'')
            \<lparr>in_title = utf16 ''Dune'', in_description = None, in_rating = Some 4,
             in_author = utf16 ''Herbert'', in_year = 1965\<rparr> initial_server)) = Some 4 \<and>
   bid (fst (addBook (utf16 ''V1StGXR8_Z5jdHi6B-myT'')
            \<lparr>in_title = utf16 ''Dune'', in_description = None, in_rating = Some 4,
             in_author = utf16 ''Herbert'', in_year = 1965\<rparr> initial_server)) \<noteq> []"
proof -
  let ?input = "\<lparr>in_title = utf16 ''Dune'', in_description = None, in_rating = Some (4::rat),
      in_author = utf16 ''Herbert'', in_year = 1965\<rparr>"
  let ?call = "addBook (utf16 ''V1StGXR8_Z5jdHi6B-myT'') ?input initial_server"
  have shape: "nanoid_result (utf16 ''V1StGXR8_Z5jdHi6B-myT'')"
    by (simp add: nanoid_result_def urlAlphabet_def utf16_def)
  have "?call = (fst ?call, snd ?call)"
    by simp
  with shape have claim: "store (snd ?call) = store initial_server @ [fst ?call] \<and>
    title (fst ?call) = in_title ?input \<and>
    author (fst ?call) = in_author ?input \<and>
    year (fst ?call) = in_year ?input \<and>
    description (fst ?call) = (case in_description ?input of None \<Rightarrow> [] | Some d \<Rightarrow> d) \<and>
    rating (fst ?call) =
      (case in_rating ?input of None \<Rightarrow> None | Some r \<Rightarrow> if r = 0 then None else Some r) \<and>
    bid (fst ?call) = utf16 ''V1StGXR8_Z5jdHi6B-myT'' \<and>
    bid (fst ?call) \<noteq> []"
    by (rule addBook_defaults)
  have "description (fst ?call) = (case in_description ?input of None \<Rightarrow> [] | Some d \<Rightarrow> d)"
    using claim by (elim conjE)
  then have "description (fst ?call) = []"
    by simp
  moreover have "rating (fst ?call) =
      (case in_rating ?input of None \<Rightarrow> None | Some r \<Rightarrow> if r = 0 then None else Some r)"
    using claim by (elim conjE)
  then have "rating (fst ?call) = Some 4"
    by simp
  moreover have "bid (fst ?call) \<noteq> []"
    using claim by (elim conjE)
  ultimately show ?thesis
    using shape by (intro conjI)
qed

text \<open>
  Claim C6 as it was stated fails where the rating zero is supplied: \<open>input.rating || null\<close>
  stores \<open>null\<close> for it.
\<close>

theorem addBook_rating_zero_counterexample:
  "rating (fst (addBook (utf16 ''V1StGXR8_Z5jdHi6B-myT'')
            \<lparr>in_title = utf16 ''Dune'', in_description = None, in_rating = Some 0,
             in_author = utf16 ''Herbert'', in_year = 1965\<rparr> initial_server)) \<noteq> Some 0"
  by (simp add: addBook_def Let_def js_or_null_def nonzero_def)

text \<open>
  Claim C2, as the source has it. For every create request in which title is missing or
  author is missing, the request is refused with \<open>ValidationError\<close> and the store, like the
  rest of the server state, is left unchanged.
\<close>

theorem exec_addBook_missing_field:
  "req_title r = None \<or> req_author r = None \<Longrightarrow>
   exec_addBook nanoid r s = (Inl ValidationError, s)"
  by (auto simp: exec_addBook_def coerce_BookInput_def split: option.split)

theorem exec_addBook_missing_field_witness:
  "req_author
     \<lparr>req_title = Some (utf16 ''Dune''), req_description = None, req_rating = None,
      req_author = None, req_year = Some 1965\<rparr> = None \<and>
   exec_addBook (utf16 ''V1StGXR8_Z5jdHi6B-myT'')
     \<lparr>req_title = Some (utf16 ''Dune''), req_description = None, req_rating = None,
      req_author = None, req_year = Some 1965\<rparr> initial_server =
     (Inl ValidationError, initial_server)"
proof -
  let ?r = "\<lparr>req_title = Some (utf16 ''Dune''), req_description = None,
      req_rating = (None :: rat option), req_author = None, req_year = Some (1965::int)\<rparr>"
  have missing: "req_author ?r = None"
    by simp
  then have "req_title ?r = None \<or> req_author ?r = None"
    by (rule disjI2)
  then have "exec_addBook (utf16 ''V1StGXR8_Z5jdHi6B-myT'') ?r initial_server =
      (Inl ValidationError, initial_server)"
    by (rule exec_addBook_missing_field)
  with missing show ?thesis
    by (rule conjI)
qed

text \<open>
  Claim C2 as it was stated fails for a title that is the empty string: the schema asks
  for a string that is not \<open>null\<close>, the resolver checks nothing, and the Book is stored.
\<close>

theorem exec_addBook_empty_title_counterexample:
  "fst (exec_addBook (utf16 ''V1StGXR8_Z5jdHi6B-myT'')
          \<lparr>req_title = Some [], req_description = None, req_rating = None,
           req_author = Some (utf16 ''Herbert''), req_year = Some 1965\<rparr> initial_server) \<noteq>
     Inl ValidationError \<and>
   length (store (snd (exec_addBook (utf16 ''V1StGXR8_Z5jdHi6B-myT'')
          \<lparr>req_title = Some [], req_description = None, req_rating = None,
           req_author = Some (utf16 ''Herbert''), req_year = Some 1965\<rparr> initial_server))) =
     Suc (length (store initial_server))"
  by (simp add: exec_addBook_def coerce_BookInput_def store_addBook split_def Let_def)

subsection \<open>Reading a Book that is not there\<close>

text \<open>
  Claim C7 at an id that no seed Book has: the resolver \<open>getBook\<close> returns the absent
  value, and the field \<open>getBook\<close>, declared \<open>Book!\<close>, answers with a field error.
\<close>

theorem exec_getBook_unknown_id:
  "getBook books (utf16 ''unknown'') = None \<and>
   exec_getBook (utf16 ''unknown'') books = Inl NullForNonNullable"
  by (simp add: exec_getBook_def getBook_books_unknown)

subsection \<open>Unique ids\<close>

text \<open>
  Claim C3, as the source has it. Start from the seed store and run any sequence of
  \<open>addBook\<close>, \<open>updateBook\<close> and \<open>deleteBook\<close> in which each id that nanoid hands out is
  new to the store. Then in every state on the way, the first and the last included, no
  two Books of the store have the same id.
\<close>

theorem ids_stay_unique:
  assumes "fresh_ids ms initial_server"
  shows "\<forall>s \<in> set (states ms initial_server). distinct (map bid (store s))"
proof -
  have "distinct (map bid (store initial_server))"
    by (simp add: initial_server_def distinct_books)
  then show ?thesis
    using assms by (rule distinct_states)
qed

text \<open>
  A run that creates \<open>Dune\<close>, sets its rating, deletes the first seed Book and creates a
  second Book.
\<close>

theorem ids_stay_unique_witness:
  "fresh_ids
     [Create (utf16 ''V1StGXR8_Z5jdHi6B-myT'')
        \<lparr>in_title = utf16 ''Dune'', in_description = None, in_rating = None,
         in_author = utf16 ''Herbert'', in_year = 1965\<rparr>,
      Update
        \<lparr>up_id = utf16 ''V1StGXR8_Z5jdHi6B-myT'', up_title = None, up_description = None,
         up_rating = Some 4, up_author = None, up_year = None\<rparr>,
      Delete (utf16 ''n12clfp3K''),
      Create (utf16 ''Uakgb_J5m9g-0JDMbcJqL'')
        \<lparr>in_title = utf16 ''Emma'', in_description = Some [], in_rating = Some 0,
         in_author = utf16 ''Austen'', in_year = 1815\<rparr>]
     initial_server \<and>
   distinct (map bid (store (last (states
     [Create (utf16 ''V1StGXR8_Z5jdHi6B-myT'')
        \<lparr>in_title = utf16 ''Dune'', in_description = None, in_rating = None,
         in_author = utf16 ''Herbert'', in_year = 1965\<rparr>,
      Update
        \<lparr>up_id = utf16 ''V1StGXR8_Z5jdHi6B-myT'', up_title = None, up_description = None,
         up_rating = Some 4, up_author = None, up_year = None\<rparr>,
      Delete (utf16 ''n12clfp3K''),
      Create (utf16 ''Uakgb_J5m9g-0JDMbcJqL'')
        \<lparr>in_title = utf16 ''Emma'', in_description = Some [], in_rating = Some 0,
         in_author = utf16 ''Austen'', in_year = 1815\<rparr>]
     initial_server))))"
proof -
  let ?ms = "[Create (utf16 ''V1StGXR8_Z5jdHi6B-myT'')
        \<lparr>in_title = utf16 ''Dune'', in_description = None, in_rating = None,
         in_author = utf16 ''Herbert'', in_year = 1965\<rparr>,
      Update
        \<lparr>up_id = utf16 ''V1StGXR8_Z5jdHi6B-myT'', up_title = None, up_description = None,
         up_rating = Some 4, up_author = None, up_year = None\<rparr>,
      Delete (utf16 ''n12clfp3K''),
      Create (utf16 ''Uakgb_J5m9g-0JDMbcJqL'')
        \<lparr>in_title = utf16 ''Emma'', in_description = Some [], in_rating = Some 0,
         in_author = utf16 ''Austen'', in_year = 1815\<rparr>]"
  let ?create = "Create (utf16 ''V1StGXR8_Z5jdHi6B-myT'')
        \<lparr>in_title = utf16 ''Dune'', in_description = None, in_rating = None,
         in_author = utf16 ''Herbert'', in_year = 1965\<rparr>"
  let ?update = "Update
        \<lparr>up_id = utf16 ''V1StGXR8_Z5jdHi6B-myT'', up_title = None, up_description = None,
         up_rating = Some 4, up_author = None, up_year = None\<rparr>"
  let ?delete = "Delete (utf16 ''n12clfp3K'')"
  let ?s1 = "apply_mutation ?create initial_server"
  let ?s2 = "apply_mutation ?update ?s1"
  let ?s3 = "apply_mutation ?delete ?s2"
  have seed: "map bid (store initial_server) =
      [utf16 ''n12clfp3K'', utf16 ''TaFvKQmgQ'', utf16 ''3y-67bb6Z'', utf16 ''Rw3sPphui'',
       utf16 ''b8eWGRQo6'', utf16 ''HVL-jHzdH'', utf16 ''eqbOaeNk-'']"
    by (simp add: initial_server_def books_def)
  have first: "utf16 ''V1StGXR8_Z5jdHi6B-myT'' \<notin> set (map bid (store initial_server))"
    unfolding seed by (simp add: utf16_eq_iff)
  have "set (map bid (store ?s3)) \<subseteq> set (map bid (store ?s2))"
    by (rule ids_after_Delete)
  also have "map bid (store ?s2) = map bid (store ?s1)"
    by (rule ids_after_Update)
  also have "map bid (store ?s1) =
      map bid (store initial_server) @ [utf16 ''V1StGXR8_Z5jdHi6B-myT'']"
    by (rule ids_after_Create)
  finally have "set (map bid (store ?s3)) \<subseteq>
      set (map bid (store initial_server) @ [utf16 ''V1StGXR8_Z5jdHi6B-myT''])" .
  moreover have "utf16 ''Uakgb_J5m9g-0JDMbcJqL'' \<notin>
      set (map bid (store initial_server) @ [utf16 ''V1StGXR8_Z5jdHi6B-myT''])"
    unfolding seed by (simp add: utf16_eq_iff)
  ultimately have second: "utf16 ''Uakgb_J5m9g-0JDMbcJqL'' \<notin> set (map bid (store ?s3))"
    by blast
  have fresh: "fresh_ids ?ms initial_server"
    by (simp only: fresh_ids.simps first second simp_thms)
  have "last (states ?ms initial_server) \<in> set (states ?ms initial_server)"
    by (rule last_in_set) (rule states_not_Nil)
  with ids_stay_unique [OF fresh]
  have "distinct (map bid (store (last (states ?ms initial_server))))"
    by (rule bspec)
  with fresh show ?thesis
    by (rule conjI)
qed

text \<open>
  Claim C3 as it was stated, for every sequence, fails when nanoid returns the same id at
  two calls of \<open>addBook\<close>: the resolver stores what nanoid returns and compares it with
  nothing, so the store ends with two Books of one id.
\<close>

theorem ids_stay_unique_counterexample:
  "\<not> distinct (map bid (store (last (states
     [Create (utf16 ''V1StGXR8_Z5jdHi6B-myT'')
        \<lparr>in_title = utf16 ''Dune'', in_description = None, in_rating = None,
         in_author = utf16 ''Herbert'', in_year = 1965\<rparr>,
      Create (utf16 ''V1StGXR8_Z5jdHi6B-myT'')
        \<lparr>in_title = utf16 ''Emma'', in_description = None, in_rating = None,
         in_author = utf16 ''Austen'', in_year = 1815\<rparr>]
     initial_server))))"
proof -
  let ?dune = "Create (utf16 ''V1StGXR8_Z5jdHi6B-myT'')
        \<lparr>in_title = utf16 ''Dune'', in_description = None, in_rating = None,
         in_author = utf16 ''Herbert'', in_year = 1965\<rparr>"
  let ?emma = "Create (utf16 ''V1StGXR8_Z5jdHi6B-myT'')
        \<lparr>in_title = utf16 ''Emma'', in_description = None, in_rating = None,
         in_author = utf16 ''Austen'', in_year = 1815\<rparr>"
  have "last (states [?dune, ?emma] initial_server) =
      apply_mutation ?emma (apply_mutation ?dune initial_server)"
    by (simp del: apply_mutation.simps)
  moreover have "map bid (store (apply_mutation ?emma (apply_mutation ?dune initial_server))) =
      (map bid (store initial_server) @ [utf16 ''V1StGXR8_Z5jdHi6B-myT'']) @
        [utf16 ''V1StGXR8_Z5jdHi6B-myT'']"
    by (simp only: ids_after_Create)
  ultimately show ?thesis
    by simp
qed

end
